theory Spec2Isabelle
  imports Complex_Main "HOL-Library.Word" "HOL-Library.AList" "HOL-Library.Multiset" "HOL-Library.Sublist"
begin

section \<open>Common modelling conventions\<close>

text \<open>
  The development embeds the post-mortem analysis code of the alltoallv profiler
  (Go, \<^verbatim>\<open>tools/internal/pkg\<close>) and the counter logger of the capture layer (C).

  \<^item> Go's \<^verbatim>\<open>int\<close> is the 64-bit two's complement integer of the usual targets:
    \<open>64 word\<close>, read with \<open>sint\<close>, compared with the signed orders.
  \<^item> A Go \<^verbatim>\<open>map[int]T\<close> is an association list with pairwise distinct keys. The
    order of the list stands for the order in which \<^verbatim>\<open>range\<close> delivers the entries,
    which Go leaves unspecified; \<^verbatim>\<open>m[k] = v\<close> is \<open>AList.update\<close>, and a read of an
    absent key yields the zero value.
  \<^item> A Go \<^verbatim>\<open>error\<close> is its message; panics and the undefined behaviour of the C code
    are further constructors of the same type.
  \<^item> Calls to \<^verbatim>\<open>log.Printf\<close> and \<^verbatim>\<open>fmt.Printf\<close> only write diagnostics and are
    left out.
\<close>

type_synonym goint = "64 word"

type_synonym 'v gomap = "(goint \<times> 'v) list"

datatype error =
    Err string
  | NilPointerDereference
  | OutOfBounds
  | BufferOverflow

definition lookup0 :: "goint gomap \<Rightarrow> goint \<Rightarrow> goint" where
  "lookup0 m k = (case map_of m k of None \<Rightarrow> 0 | Some v \<Rightarrow> v)"

definition hasKey :: "'v gomap \<Rightarrow> goint \<Rightarrow> bool" where
  "hasKey m k = (case map_of m k of None \<Rightarrow> False | Some v \<Rightarrow> True)"

section \<open>Decimal output\<close>

text \<open>
  The \<^verbatim>\<open>%d\<close> verb of \<^verbatim>\<open>fmt.Sprintf\<close> and of C's \<^verbatim>\<open>sprintf\<close>, and \<^verbatim>\<open>strconv.Itoa\<close>: the
  decimal digits of the magnitude, most significant first, after a minus sign for a
  negative number.
\<close>

definition digit :: "nat \<Rightarrow> char" where
  "digit d = ''0123456789'' ! (d mod 10)"

function decimal :: "nat \<Rightarrow> string" where
  "decimal n = (if n < 10 then [digit n] else decimal (n div 10) @ [digit (n mod 10)])"
  by pat_completeness auto
termination
  by (relation "measure id") auto

declare decimal.simps [simp del]

definition showInt :: "int \<Rightarrow> string" where
  "showInt i = (if i < 0 then CHR ''-'' # decimal (nat (- i)) else decimal (nat i))"

definition Itoa :: "goint \<Rightarrow> string" where
  "Itoa i = showInt (sint i)"

section \<open>Go string functions\<close>

text \<open>
  \<^verbatim>\<open>strings.Split(s, sep)\<close>: the pieces of \<open>s\<close> between the non-overlapping occurrences
  of \<open>sep\<close>, found from the left; always at least one piece for a non-empty separator.
  With an empty separator Go splits after every character.
\<close>

function splitAt :: "string \<Rightarrow> string \<Rightarrow> string \<Rightarrow> string list" where
  "splitAt sep cur [] = [cur]"
| "splitAt sep cur (c # cs) =
     (if sep \<noteq> [] \<and> take (length sep) (c # cs) = sep
      then cur # splitAt sep [] (drop (length sep) (c # cs))
      else splitAt sep (cur @ [c]) cs)"
  by pat_completeness auto
termination
  by (relation "measure (\<lambda>(sep, cur, s). length s)") auto

definition Split :: "string \<Rightarrow> string \<Rightarrow> string list" where
  "Split s sep = (if sep = [] then map (\<lambda>c. [c]) s else splitAt sep [] s)"

text \<open>\<^verbatim>\<open>strings.TrimRight(s, cutset)\<close>: \<open>s\<close> without its trailing characters from \<open>cutset\<close>.\<close>

definition TrimRight :: "string \<Rightarrow> string \<Rightarrow> string" where
  "TrimRight s cutset = rev (dropWhile (\<lambda>c. c \<in> set cutset) (rev s))"

text \<open>A non-empty run of decimal digits, read as a number.\<close>

definition digitValue :: "char \<Rightarrow> nat option" where
  "digitValue c =
     (if c \<in> set ''0123456789'' then Some (of_char c - 48) else None)"

fun parseDigits :: "nat \<Rightarrow> string \<Rightarrow> nat option" where
  "parseDigits acc [] = Some acc"
| "parseDigits acc (c # cs) =
     (case digitValue c of None \<Rightarrow> None | Some d \<Rightarrow> parseDigits (10 * acc + d) cs)"

definition parseNumber :: "string \<Rightarrow> nat option" where
  "parseNumber t = (if t = [] then None else parseDigits 0 t)"

text \<open>
  \<^verbatim>\<open>strconv.Atoi\<close>: an optional sign and at least one decimal digit, nothing else; the
  value has to fit the 64-bit \<^verbatim>\<open>int\<close>.
\<close>

definition Atoi :: "string \<Rightarrow> error + goint" where
  "Atoi s =
     (let (neg, ds) =
        (case s of
           [] \<Rightarrow> (False, s)
         | c # cs \<Rightarrow>
             if c = CHR ''-'' then (True, cs) else if c = CHR ''+'' then (False, cs) else (False, s))
      in case parseNumber ds of
           None \<Rightarrow>
             Inl (Err (''strconv.Atoi: parsing '' @ [CHR 0x22] @ s @ [CHR 0x22] @ '': invalid syntax''))
         | Some n \<Rightarrow>
             (let v = (if neg then - int n else int n)
              in if - (2 ^ 63) \<le> v \<and> v < 2 ^ 63 then Inr (word_of_int v)
                 else Inl (Err (''strconv.Atoi: parsing '' @ [CHR 0x22] @ s @ [CHR 0x22] @
                                '': value out of range''))))"

text \<open>
  \<^verbatim>\<open>strings.ReplaceAll(s, old, new)\<close>: the non-overlapping occurrences of \<open>old\<close>, found
  from the left, replaced by \<open>new\<close>. An empty \<open>old\<close> matches before every character and
  at the end.
\<close>

function replaceFrom :: "string \<Rightarrow> string \<Rightarrow> string \<Rightarrow> string" where
  "replaceFrom old new [] = []"
| "replaceFrom old new (c # cs) =
     (if old \<noteq> [] \<and> take (length old) (c # cs) = old
      then new @ replaceFrom old new (drop (length old) (c # cs))
      else c # replaceFrom old new cs)"
  by pat_completeness auto
termination
  by (relation "measure (\<lambda>(old, new, s). length s)") auto

definition ReplaceAll :: "string \<Rightarrow> string \<Rightarrow> string \<Rightarrow> string" where
  "ReplaceAll s old new =
     (if old = [] then new @ concat (map (\<lambda>c. c # new) s) else replaceFrom old new s)"

definition HasPrefix :: "string \<Rightarrow> string \<Rightarrow> bool" where
  "HasPrefix s p = (take (length p) s = p)"

text \<open>
  \<^verbatim>\<open>filepath.Base\<close> with \<^verbatim>\<open>/\<close> as separator: the last element of the path, after the
  trailing slashes are removed; \<^verbatim>\<open>.\<close> for the empty path and \<^verbatim>\<open>/\<close> for a path of slashes.
\<close>

definition Base :: "string \<Rightarrow> string" where
  "Base path =
     (if path = [] then ''.''
      else (let b = rev (takeWhile (\<lambda>c. c \<noteq> CHR ''/'') (rev (TrimRight path ''/'')))
            in if b = [] then ''/'' else b))"

section \<open>Pattern classifier (format.go, addPattern)\<close>

record CallPattern =
  Send :: "goint gomap"
  Recv :: "goint gomap"
  Count :: goint
  Calls :: "goint list"

text \<open>
  \<^verbatim>\<open>AllPatterns\<close> and \<^verbatim>\<open>OneToN\<close> are slices of pointers to the same \<^verbatim>\<open>CallPattern\<close>
  objects. The objects live in a store, a list of cells addressed by position;
  \<^verbatim>\<open>new(CallPattern)\<close> allocates the next cell.
\<close>

type_synonym addr = nat

type_synonym store = "CallPattern list"

record GlobalPatterns =
  AllPatterns :: "addr list"
  OneToN :: "addr list"

definition deref :: "store \<Rightarrow> addr \<Rightarrow> CallPattern option" where
  "deref h a = (if a < length h then Some (h ! a) else None)"

definition CompareCallPatterns :: "goint gomap \<Rightarrow> goint gomap \<Rightarrow> bool" where
  \<comment> \<open>Modelled from the spec: \<^verbatim>\<open>datafilereader.CompareCallPatterns\<close> is not part of the
      sources at hand. Equality of two signatures requires identical key sets and
      identical values on both maps; a key present with value 0 is not the same as an
      absent key.\<close>
  "CompareCallPatterns p1 p2 =
     (list_all (\<lambda>(k, v). map_of p2 k = Some v) p1 \<and>
      list_all (\<lambda>(k, v). map_of p1 k = Some v) p2)"

definition samePattern :: "CallPattern \<Rightarrow> goint gomap \<Rightarrow> goint gomap \<Rightarrow> bool" where
  "samePattern x sendPatterns recvPatterns =
     (CompareCallPatterns (Send x) sendPatterns \<and> CompareCallPatterns (Recv x) recvPatterns)"

text \<open>The scan of \<^verbatim>\<open>AllPatterns\<close> in discovery order, up to the first equal entry.\<close>

fun findPattern :: "store \<Rightarrow> goint gomap \<Rightarrow> goint gomap \<Rightarrow> addr list \<Rightarrow> error + addr option" where
  "findPattern h sendPatterns recvPatterns [] = Inr None"
| "findPattern h sendPatterns recvPatterns (a # as) =
     (case deref h a of
        None \<Rightarrow> Inl NilPointerDereference
      | Some x \<Rightarrow>
          if samePattern x sendPatterns recvPatterns then Inr (Some a)
          else findPattern h sendPatterns recvPatterns as)"

definition isOneToN :: "goint \<times> goint \<Rightarrow> bool" where
  \<comment> \<open>\<^verbatim>\<open>sendTo > n*100\<close> on Go ints: the product wraps, the comparison is signed.\<close>
  "isOneToN = (\<lambda>(sendTo, n). n * 100 <s sendTo)"

text \<open>The loop that detects 1 -> n patterns: one append for every qualifying entry.\<close>

fun detectOneToN :: "addr \<Rightarrow> goint gomap \<Rightarrow> addr list \<Rightarrow> addr list" where
  "detectOneToN new_cp [] oneToN = oneToN"
| "detectOneToN new_cp (e # es) oneToN =
     detectOneToN new_cp es (if isOneToN e then oneToN @ [new_cp] else oneToN)"

definition addPattern ::
  "goint \<Rightarrow> goint gomap \<Rightarrow> goint gomap \<Rightarrow> store \<times> GlobalPatterns \<Rightarrow> error + store \<times> GlobalPatterns"
where
  "addPattern callNum sendPatterns recvPatterns st =
     (case st of (h, globalPatterns) \<Rightarrow>
      (case findPattern h sendPatterns recvPatterns (AllPatterns globalPatterns) of
         Inl e \<Rightarrow> Inl e
       | Inr (Some a) \<Rightarrow>
           Inr (h[a := (h ! a)\<lparr>Count := Count (h ! a) + 1, Calls := Calls (h ! a) @ [callNum]\<rparr>],
                globalPatterns)
       | Inr None \<Rightarrow>
           (let new_cp = length h;
                h' = h @ [\<lparr>Send = sendPatterns, Recv = recvPatterns, Count = 1, Calls = [callNum]\<rparr>];
                g' = globalPatterns\<lparr>AllPatterns := AllPatterns globalPatterns @ [new_cp]\<rparr>
            in Inr (h', g'\<lparr>OneToN := detectOneToN new_cp sendPatterns (OneToN g')\<rparr>))))"


definition wellFormed :: "store \<times> GlobalPatterns \<Rightarrow> bool" where
  "wellFormed st =
     (distinct (AllPatterns (snd st)) \<and>
      list_all (\<lambda>a. a < length (fst st)) (AllPatterns (snd st)))"

definition emptyPatterns :: "store \<times> GlobalPatterns" where
  "emptyPatterns = ([], \<lparr>AllPatterns = [], OneToN = []\<rparr>)"

text \<open>
  Vocabulary for the statements about the table: the effect of a match on the matched
  entry, the entry a new signature creates, and the position of the first entry equal to
  a signature pair.
\<close>

definition bump :: "goint \<Rightarrow> CallPattern \<Rightarrow> CallPattern" where
  "bump callNum x = x\<lparr>Count := Count x + 1, Calls := Calls x @ [callNum]\<rparr>"

definition newPattern :: "goint \<Rightarrow> goint gomap \<Rightarrow> goint gomap \<Rightarrow> CallPattern" where
  "newPattern callNum s r = \<lparr>Send = s, Recv = r, Count = 1, Calls = [callNum]\<rparr>"


text \<open>
  A run of the classifier over a sequence of calls, and the relation between the table
  and the fan-out index that every such run maintains: the pointers of \<open>OneToN\<close> are
  valid, and a pattern occurs in \<open>OneToN\<close> as often as its send signature has
  qualifying entries.
\<close>

definition fanOutCounted :: "store \<times> GlobalPatterns \<Rightarrow> bool" where
  "fanOutCounted st =
     (list_all (\<lambda>a. a < length (fst st)) (OneToN (snd st)) \<and>
      list_all (\<lambda>a. count_list (OneToN (snd st)) a = length (filter isOneToN (Send (fst st ! a))))
        (AllPatterns (snd st)))"

fun addPatterns ::
  "(goint \<times> goint gomap \<times> goint gomap) list \<Rightarrow> store \<times> GlobalPatterns \<Rightarrow> error + store \<times> GlobalPatterns"
where
  "addPatterns [] st = Inr st"
| "addPatterns ((callNum, sendPatterns, recvPatterns) # calls) st =
     (case addPattern callNum sendPatterns recvPatterns st of
        Inl e \<Rightarrow> Inl e
      | Inr st' \<Rightarrow> addPatterns calls st')"

section \<open>Statistics accumulator (format.go, ParseCountFiles)\<close>

record CountStats =
  NumSendSmallMsgs :: goint
  NumSendLargeMsgs :: goint
  SizeThreshold :: goint
  NumSendSmallNotZeroMsgs :: goint
  CommSizes :: "goint gomap"
  DatatypesSend :: "goint gomap"
  DatatypesRecv :: "goint gomap"
  CallSendSparsity :: "goint gomap"
  CallRecvSparsity :: "goint gomap"
  SendMins :: "goint gomap"
  RecvMins :: "goint gomap"
  SendMaxs :: "goint gomap"
  RecvMaxs :: "goint gomap"
  SendNotZeroMins :: "goint gomap"
  RecvNotZeroMins :: "goint gomap"
  Patterns :: "store \<times> GlobalPatterns"

text \<open>
  The result of \<^verbatim>\<open>datafilereader.LookupCall\<close>; the type is declared outside the sources
  at hand, the fields are those that \<^verbatim>\<open>ParseCountFiles\<close> reads. The two maps of the
  nested field \<^verbatim>\<open>Patterns\<close> appear as \<open>SendPatterns\<close> and \<open>RecvPatterns\<close>.
\<close>

record CallInfo =
  SendSmallMsgs :: goint
  SendSmallNotZeroMsgs :: goint
  SendLargeMsgs :: goint
  SendDatatypeSize :: goint
  RecvDatatypeSize :: goint
  CommSize :: goint
  SendMin :: goint
  RecvMin :: goint
  SendMax :: goint
  RecvMax :: goint
  SendNotZeroMin :: goint
  RecvNotZeroMin :: goint
  TotalSendZeroCounts :: goint
  TotalRecvZeroCounts :: goint
  SendPatterns :: "goint gomap"
  RecvPatterns :: "goint gomap"

definition newCountStats :: CountStats where
  "newCountStats =
     \<lparr>NumSendSmallMsgs = 0, NumSendLargeMsgs = 0, SizeThreshold = 0,
      NumSendSmallNotZeroMsgs = 0,
      CommSizes = [], DatatypesSend = [], DatatypesRecv = [],
      CallSendSparsity = [], CallRecvSparsity = [],
      SendMins = [], RecvMins = [], SendMaxs = [], RecvMaxs = [],
      SendNotZeroMins = [], RecvNotZeroMins = [],
      Patterns = emptyPatterns\<rparr>"

definition countKey :: "goint gomap \<Rightarrow> goint gomap \<Rightarrow> goint \<Rightarrow> goint gomap" where
  \<comment> \<open>\<^verbatim>\<open>if _, ok := tested[k]; ok { target[k]++ } else { target[k] = 1 }\<close>\<close>
  "countKey tested target k =
     (if hasKey tested k then AList.update k (lookup0 target k + 1) target
      else AList.update k 1 target)"

definition countInto ::
  "(CountStats \<Rightarrow> goint gomap) \<Rightarrow> ((goint gomap \<Rightarrow> goint gomap) \<Rightarrow> CountStats \<Rightarrow> CountStats) \<Rightarrow>
   goint \<Rightarrow> CountStats \<Rightarrow> CountStats"
where
  \<comment> \<open>One \<^verbatim>\<open>if _, ok := cs.Tested[k]; ok { cs.Target[k]++ } else { cs.Target[k] = 1 }\<close>
      statement: the field that is tested and the field that is written.\<close>
  "countInto tested target_update k cs = target_update (\<lambda>target. countKey (tested cs) target k) cs"

text \<open>
  The body of the loop of \<^verbatim>\<open>ParseCountFiles\<close> after a successful \<^verbatim>\<open>LookupCall\<close>, statement
  by statement. Each histogram is tested and updated as the source names the two maps.
\<close>

definition accumulate :: "goint \<Rightarrow> CallInfo \<Rightarrow> CountStats \<Rightarrow> error + CountStats" where
  "accumulate i callInfo cs0 =
     (let cs = NumSendSmallMsgs_update (\<lambda>n. n + SendSmallMsgs callInfo) cs0;
          cs = NumSendSmallNotZeroMsgs_update (\<lambda>n. n + SendSmallNotZeroMsgs callInfo) cs;
          cs = NumSendLargeMsgs_update (\<lambda>n. n + SendLargeMsgs callInfo) cs;
          cs = countInto DatatypesSend DatatypesSend_update (SendDatatypeSize callInfo) cs;
          cs = countInto DatatypesRecv DatatypesRecv_update (RecvDatatypeSize callInfo) cs;
          cs = countInto CommSizes CommSizes_update (CommSize callInfo) cs;
          cs = countInto SendMins SendMins_update (SendMin callInfo) cs;
          cs = countInto RecvMins RecvMins_update (RecvMin callInfo) cs;
          cs = countInto SendMaxs SendMaxs_update (SendMax callInfo) cs;
          cs = countInto RecvMaxs RecvMaxs_update (RecvMax callInfo) cs;
          cs = countInto SendNotZeroMins SendMins_update (SendNotZeroMin callInfo) cs;
          cs = countInto RecvNotZeroMins RecvMins_update (RecvNotZeroMin callInfo) cs;
          cs = countInto CallSendSparsity CallSendSparsity_update (TotalSendZeroCounts callInfo) cs;
          cs = countInto CallRecvSparsity CallRecvSparsity_update (TotalRecvZeroCounts callInfo) cs
      in case addPattern i (SendPatterns callInfo) (RecvPatterns callInfo) (Patterns cs) of
           Inl e \<Rightarrow> Inl e
         | Inr p \<Rightarrow> Inr (Patterns_update (\<lambda>_. p) cs))"

text \<open>
  \<^verbatim>\<open>ParseCountFiles\<close> returns the statistics gathered so far together with the error.
  \<^verbatim>\<open>LookupCall\<close> is a parameter: it reads the two count files for one call.
\<close>

fun parseCalls ::
  "(goint \<Rightarrow> error + CallInfo) \<Rightarrow> goint list \<Rightarrow> CountStats \<Rightarrow> CountStats \<times> error option"
where
  "parseCalls LookupCall [] cs = (cs, None)"
| "parseCalls LookupCall (i # is) cs =
     (case LookupCall i of
        Inl e \<Rightarrow> (cs, Some e)
      | Inr callInfo \<Rightarrow>
          (case accumulate i callInfo cs of
             Inl e \<Rightarrow> (cs, Some e)
           | Inr cs' \<Rightarrow> parseCalls LookupCall is cs'))"

definition ParseCountFiles ::
  "(string \<Rightarrow> string \<Rightarrow> goint \<Rightarrow> goint \<Rightarrow> error + CallInfo) \<Rightarrow>
   string \<Rightarrow> string \<Rightarrow> goint \<Rightarrow> goint \<Rightarrow> CountStats \<times> error option"
where
  "ParseCountFiles LookupCall sendCountsFile recvCountsFile numCalls sizeThreshold =
     parseCalls (\<lambda>i. LookupCall sendCountsFile recvCountsFile i sizeThreshold)
       (map of_nat [0 ..< nat (sint numCalls)]) newCountStats"

definition sampleCall :: CallInfo where
  "sampleCall =
     \<lparr>SendSmallMsgs = 3, SendSmallNotZeroMsgs = 1, SendLargeMsgs = 1,
      SendDatatypeSize = 8, RecvDatatypeSize = 8, CommSize = 2,
      SendMin = 0, RecvMin = 0, SendMax = 30, RecvMax = 30,
      SendNotZeroMin = 5, RecvNotZeroMin = 7,
      TotalSendZeroCounts = 2, TotalRecvZeroCounts = 2,
      SendPatterns = [(1, 2)], RecvPatterns = [(1, 2)]\<rparr>"

section \<open>Report output (format.go, writeCountStatsToFile)\<close>

text \<open>
  An \<^verbatim>\<open>*os.File\<close> opened for writing: the text written so far, and whether a write
  succeeds. \<^verbatim>\<open>WriteString\<close> appends or fails.
\<close>

record File =
  writable :: bool
  content :: string

definition WriteString :: "File \<Rightarrow> string \<Rightarrow> File \<times> error option" where
  "WriteString fd s =
     (if writable fd then (fd\<lparr>content := content fd @ s\<rparr>, None)
      else (fd, Some (Err ''write failed'')))"

text \<open>A run of \<^verbatim>\<open>_, err = fd.WriteString(...); if err != nil { return err }\<close> statements.\<close>

fun writeStrings :: "File \<Rightarrow> string list \<Rightarrow> File \<times> error option" where
  "writeStrings fd [] = (fd, None)"
| "writeStrings fd (s # ss) =
     (case WriteString fd s of
        (fd', Some e) \<Rightarrow> (fd', Some e)
      | (fd', None) \<Rightarrow> writeStrings fd' ss)"










section \<open>Rank list compression (logger, compress_int_array)\<close>

text \<open>
  The C function works on a pointer and a size. The model passes the memory block that
  the pointer addresses as a list of ints; a read or write beyond the block is undefined
  behaviour and ends the run with \<open>OutOfBounds\<close>. \<^verbatim>\<open>MAX_STRING_LEN\<close>, the size of the
  buffer that holds the result, is defined in a header outside the sources and is a
  parameter; a \<^verbatim>\<open>sprintf\<close> that does not fit ends the run with \<open>BufferOverflow\<close>. A
  \<^verbatim>\<open>char *\<close> is \<open>None\<close> for \<^verbatim>\<open>NULL\<close>, or the C string it points to. The values are only
  copied and tested against zero, and the indices stay below the length of the block,
  so \<open>int\<close> and \<open>nat\<close> stand for the C ints.
\<close>

definition sprintfInto :: "nat \<Rightarrow> string \<Rightarrow> error + string" where
  "sprintfInto MAX_STRING_LEN s = (if length s < MAX_STRING_LEN then Inr s else Inl BufferOverflow)"

definition add_range :: "nat \<Rightarrow> string option \<Rightarrow> int \<Rightarrow> int \<Rightarrow> error + string" where
  "add_range MAX_STRING_LEN str start end' =
     (case str of
        None \<Rightarrow> sprintfInto MAX_STRING_LEN (showInt start @ ''-'' @ showInt end')
      | Some s \<Rightarrow>
          if s = [] then Inl OutOfBounds
          else sprintfInto MAX_STRING_LEN
                 (butlast s @ '', '' @ showInt start @ ''-'' @ showInt end'))"

definition add_singleton :: "nat \<Rightarrow> string option \<Rightarrow> int \<Rightarrow> error + string" where
  "add_singleton MAX_STRING_LEN str n =
     (case str of
        None \<Rightarrow> sprintfInto MAX_STRING_LEN (showInt n)
      | Some s \<Rightarrow>
          if s = [] then Inl OutOfBounds
          else sprintfInto MAX_STRING_LEN (butlast s @ '', '' @ showInt n))"

text \<open>
  The inner loop \<^verbatim>\<open>while (array[i] = array[i + 1]) i++;\<close>: an assignment, whose value
  is tested against zero.
\<close>

function scanRun :: "int list \<Rightarrow> nat \<Rightarrow> error + int list \<times> nat" where
  "scanRun array i =
     (if i + 1 < length array
      then (let v = array ! (i + 1); array' = array[i := v]
            in if v \<noteq> 0 then scanRun array' (i + 1) else Inr (array', i))
      else Inl OutOfBounds)"
  by pat_completeness auto
termination
  by (relation "measure (\<lambda>(array, i). length array - i)") auto

declare scanRun.simps [simp del]

lemma scanRun_ge: "scanRun array i = Inr (array', j) \<Longrightarrow> i \<le> j"
proof (induction array i rule: scanRun.induct)
  case (1 array i)
  show ?case
  proof (cases "i + 1 < length array \<and> array ! (i + 1) \<noteq> 0")
    case True
    with "1.prems" have "scanRun (array[i := array ! (i + 1)]) (i + 1) = Inr (array', j)"
      by (subst (asm) scanRun.simps) (simp add: Let_def)
    from "1.IH" [OF _ refl refl _ this] True have "i + 1 \<le> j" by simp
    then show ?thesis by simp
  next
    case False
    with "1.prems" show ?thesis
      by (subst (asm) scanRun.simps) (auto simp: Let_def split: if_splits)
  qed
qed

text \<open>
  The \<^verbatim>\<open>for (i = 0; i < size; i++)\<close> loop, with \<open>n\<close> for the parameter \<^verbatim>\<open>size\<close>;
  \<open>compressedRep\<close> is the string built so far.
\<close>

function compressLoop ::
  "nat \<Rightarrow> int list \<Rightarrow> int \<Rightarrow> nat \<Rightarrow> string option \<Rightarrow> error + int list \<times> string option"
where
  "compressLoop MAX_STRING_LEN array n i compressedRep =
     (if int i < n
      then (case scanRun array i of
              Inl e \<Rightarrow> Inl e
            | Inr (array', j) \<Rightarrow>
                (case (if j \<noteq> i then add_range MAX_STRING_LEN compressedRep (int i) (int j)
                       else add_singleton MAX_STRING_LEN compressedRep (int j)) of
                   Inl e \<Rightarrow> Inl e
                 | Inr s \<Rightarrow> compressLoop MAX_STRING_LEN array' n (j + 1) (Some s)))
      else Inr (array, compressedRep))"
  by pat_completeness auto
termination
  by (relation "measure (\<lambda>(m, array, n, i, rep). nat n - i)")
    (auto dest: scanRun_ge)

declare compressLoop.simps [simp del]

text \<open>
  \<^verbatim>\<open>compress_int_array\<close> declares \<^verbatim>\<open>char *compressedRep;\<close> without an initial value; the
  value the variable happens to hold is the parameter \<open>compressedRep0\<close>. The result is
  the memory block after the run and the returned pointer.
\<close>

definition compress_int_array ::
  "nat \<Rightarrow> string option \<Rightarrow> int list \<Rightarrow> int \<Rightarrow> error + int list \<times> string option"
where
  "compress_int_array MAX_STRING_LEN compressedRep0 array n =
     compressLoop MAX_STRING_LEN array n 0 compressedRep0"

section \<open>Rank list decompression\<close>

definition parseToken :: "string \<Rightarrow> int list option" where
  "parseToken t =
     (case Split t ''-'' of
        [a] \<Rightarrow> (case parseNumber a of None \<Rightarrow> None | Some x \<Rightarrow> Some [int x])
      | [a, b] \<Rightarrow>
          (case (parseNumber a, parseNumber b) of
             (Some x, Some y) \<Rightarrow> if x \<le> y then Some (map int [x ..< Suc y]) else None
           | _ \<Rightarrow> None)
      | _ \<Rightarrow> None)"

fun parseTokens :: "string list \<Rightarrow> int list option" where
  "parseTokens [] = Some []"
| "parseTokens (t # ts) =
     (case parseToken t of
        None \<Rightarrow> None
      | Some xs \<Rightarrow> (case parseTokens ts of None \<Rightarrow> None | Some ys \<Rightarrow> Some (xs @ ys)))"

definition decompress :: "string \<Rightarrow> error + int list" where
  \<comment> \<open>Modelled from the spec: the decoder (\<^verbatim>\<open>notation.ConvertCompressedCallListToIntSlice\<close>)
      is not part of the sources at hand. It splits on \<^verbatim>\<open>", "\<close>; each token is a bare
      integer or \<^verbatim>\<open>a-b\<close> with \<open>a \<le> b\<close>, which is expanded; it fails with a format error
      if a token is not numeric, if a range is reversed, or if the result is not
      strictly ascending; the empty string is the empty sequence.\<close>
  "decompress s =
     (if s = [] then Inr []
      else (case parseTokens (Split s '', '') of
              None \<Rightarrow> Inl (Err ''format error'')
            | Some xs \<Rightarrow>
                if sorted_wrt (<) xs then Inr xs else Inl (Err ''format error'')))"

section \<open>The codec as the specification describes it\<close>

text \<open>
  For comparison with the C function: the encoder in the words of the specification.
  Maximal runs of consecutive ids are formed; a run of length at least 2 is rendered as
  \<^verbatim>\<open>start-end\<close>, an isolated id as its decimal value; the tokens are joined with
  \<^verbatim>\<open>", "\<close>; the empty sequence gives the empty string.
\<close>

fun runs :: "int list \<Rightarrow> (int \<times> int) list" where
  "runs [] = []"
| "runs (x # xs) =
     (case runs xs of
        [] \<Rightarrow> [(x, x)]
      | (a, b) # rs \<Rightarrow> if a = x + 1 then (x, b) # rs else (x, x) # (a, b) # rs)"

definition token :: "int \<times> int \<Rightarrow> string" where
  "token = (\<lambda>(a, b). if a = b then showInt a else showInt a @ ''-'' @ showInt b)"

fun joinWith :: "string \<Rightarrow> string list \<Rightarrow> string" where
  "joinWith sep [] = []"
| "joinWith sep [t] = t"
| "joinWith sep (t # ts) = t @ sep @ joinWith sep ts"

definition compress_spec :: "int list \<Rightarrow> string" where
  \<comment> \<open>Modelled from the spec: the Go encoder (\<^verbatim>\<open>notation.CompressIntArray\<close>) is not part
      of the sources at hand.\<close>
  "compress_spec ids = joinWith '', '' (map token (runs ids))"

definition expand :: "int \<times> int \<Rightarrow> int list" where
  "expand = (\<lambda>(a, b). map int [nat a ..< Suc (nat b)])"

definition validRun :: "int \<times> int \<Rightarrow> bool" where
  "validRun = (\<lambda>(a, b). 0 \<le> a \<and> a \<le> b)"

section \<open>Validation data (format.go, getCountersFromValidationFile and Validate)\<close>

text \<open>
  A file opened for reading through a \<^verbatim>\<open>bufio.Reader\<close>: the bytes not yet read, and how the
  stream ends once they are used up, with \<^verbatim>\<open>io.EOF\<close> or with a read error.
\<close>

record Reader =
  remaining :: string
  failure :: "error option"

definition io_EOF :: error where
  "io_EOF = Err ''EOF''"

definition Error :: "error \<Rightarrow> string" where
  \<comment> \<open>the message of an error, as \<^verbatim>\<open>%w\<close> and \<^verbatim>\<open>%s\<close> print it\<close>
  "Error e =
     (case e of
        Err m \<Rightarrow> m
      | NilPointerDereference \<Rightarrow> ''invalid memory address or nil pointer dereference''
      | OutOfBounds \<Rightarrow> ''out of bounds''
      | BufferOverflow \<Rightarrow> ''buffer overflow'')"

text \<open>The bytes up to and including the first newline, and what follows it, if there is one.\<close>

fun takeLine :: "string \<Rightarrow> string \<times> string option" where
  "takeLine [] = ([], None)"
| "takeLine (c # cs) =
     (if c = CHR 0x0A then ([c], Some cs)
      else (case takeLine cs of (line, rest) \<Rightarrow> (c # line, rest)))"

definition ReadString :: "Reader \<Rightarrow> string \<times> error option \<times> Reader" where
  \<comment> \<open>\<^verbatim>\<open>reader.ReadString('\n')\<close>: the data up to and including the delimiter; at the
      end of the stream the data read so far and the error that ended it\<close>
  "ReadString reader =
     (case takeLine (remaining reader) of
        (line, Some rest) \<Rightarrow> (line, None, reader\<lparr>remaining := rest\<rparr>)
      | (line, None) \<Rightarrow>
          (line, Some (case failure reader of None \<Rightarrow> io_EOF | Some e \<Rightarrow> e),
           reader\<lparr>remaining := []\<rparr>))"

lemma takeLine_shorter: "takeLine s = (line, Some rest) \<Longrightarrow> length rest < length s"
  by (induction s arbitrary: line) (auto split: if_splits prod.splits)

lemma ReadString_shorter:
  "ReadString reader = (line, None, reader') \<Longrightarrow>
     length (remaining reader') < length (remaining reader)"
  by (auto simp: ReadString_def split: prod.splits option.splits dest: takeLine_shorter)

text \<open>The \<^verbatim>\<open>if line != "" && line != "\n"\<close> statement of the loop.\<close>

definition keepLine :: "string \<Rightarrow> string \<times> string \<Rightarrow> error + string \<times> string" where
  "keepLine line = (\<lambda>(sendCounters, recvCounters).
     if line \<noteq> [] \<and> line \<noteq> ''\<newline>''
     then (if sendCounters = [] then Inr (line, recvCounters)
           else if recvCounters = [] then Inr (sendCounters, line)
           else Inl (Err ''invalid file format''))
     else Inr (sendCounters, recvCounters))"

function readCounters :: "string \<Rightarrow> Reader \<Rightarrow> string \<times> string \<Rightarrow> error + string \<times> string" where
  "readCounters path reader counters =
     (case ReadString reader of (line, readerErr, reader') \<Rightarrow>
        if readerErr \<noteq> None \<and> readerErr \<noteq> Some io_EOF
        then Inl (Err (''unable to read header from '' @ path @ '': '' @ Error (the readerErr)))
        else (case keepLine line counters of
                Inl e \<Rightarrow> Inl e
              | Inr counters' \<Rightarrow>
                  if readerErr = Some io_EOF then Inr counters'
                  else readCounters path reader' counters'))"
  by pat_completeness auto
termination
  by (relation "measure (\<lambda>(path, reader, counters). length (remaining reader))")
    (auto dest: ReadString_shorter [OF sym])

declare readCounters.simps [simp del]

definition getCountersFromValidationFile ::
  "(string \<Rightarrow> error + Reader) \<Rightarrow> string \<Rightarrow> error + string \<times> string"
where
  \<comment> \<open>\<open>Open\<close> stands for \<^verbatim>\<open>os.Open\<close> followed by \<^verbatim>\<open>bufio.NewReader\<close>\<close>
  "getCountersFromValidationFile Open path =
     (case Open path of
        Inl err \<Rightarrow> Inl (Err (''unable to open '' @ path @ '': '' @ Error err))
      | Inr file \<Rightarrow>
          (case readCounters path file ([], []) of
             Inl e \<Rightarrow> Inl e
           | Inr (sendCounters, recvCounters) \<Rightarrow>
               if sendCounters = [] \<or> recvCounters = []
               then Inl (Err (''unable to load send and receive counters from '' @ path))
               else Inr (TrimRight (TrimRight sendCounters ''\<newline>'') '' '',
                         TrimRight (TrimRight recvCounters ''\<newline>'') '' '')))"

text \<open>
  The lines of a text, each with its terminating newline; the last one is what follows
  the final newline (empty if the text ends with a newline). A line is empty when it
  holds nothing but its terminator.
\<close>

fun linesFrom :: "string \<Rightarrow> string \<Rightarrow> string list" where
  "linesFrom cur [] = [cur]"
| "linesFrom cur (c # cs) =
     (if c = CHR 0x0A then (cur @ [c]) # linesFrom [] cs else linesFrom (cur @ [c]) cs)"

definition fileLines :: "string \<Rightarrow> string list" where
  "fileLines s = linesFrom [] s"

definition nonEmptyLine :: "string \<Rightarrow> bool" where
  "nonEmptyLine line = (line \<noteq> [] \<and> line \<noteq> ''\<newline>'')"

definition stripLine :: "string \<Rightarrow> string" where
  "stripLine line = TrimRight (TrimRight line ''\<newline>'') '' ''"

text \<open>What the loop keeps of a sequence of lines, taken one after the other.\<close>

fun keepLines :: "string list \<Rightarrow> string \<times> string \<Rightarrow> error + string \<times> string" where
  "keepLines [] counters = Inr counters"
| "keepLines (line # lines) counters =
     (case keepLine line counters of
        Inl e \<Rightarrow> Inl e
      | Inr counters' \<Rightarrow> keepLines lines counters')"

definition validationFile :: "string \<Rightarrow> error + Reader" where
  "validationFile path =
     (if path = ''validation_data-pid42-rank1-call3.txt''
      then Inr \<lparr>remaining = ''1 2 3 \<newline>\<newline>4 5 6\<newline>'', failure = None\<rparr>
      else Inl (Err ''no such file or directory''))"

text \<open>
  What \<^verbatim>\<open>Validate\<close> needs from its surroundings: the names in a directory
  (\<^verbatim>\<open>ioutil.ReadDir\<close>), \<^verbatim>\<open>filepath.Join\<close>, the files (\<^verbatim>\<open>os.Open\<close>), and the lookup
  \<^verbatim>\<open>datafilereader.FindCallRankCounters(dir, jobid, rank, call)\<close> in the count files,
  which is not part of the sources at hand.
\<close>

record Env =
  ioutil_ReadDir :: "string \<Rightarrow> error + string list"
  filepath_Join :: "string \<Rightarrow> string \<Rightarrow> string"
  os_Open :: "string \<Rightarrow> error + Reader"
  FindCallRankCounters :: "string \<Rightarrow> goint \<Rightarrow> goint \<Rightarrow> goint \<Rightarrow> error + string \<times> string"

definition getValidationFiles :: "Env \<Rightarrow> string \<Rightarrow> string \<Rightarrow> error + string list" where
  "getValidationFiles env basedir id' =
     (case ioutil_ReadDir env basedir of
        Inl err \<Rightarrow> Inl (Err (''[ERROR] unable to read '' @ basedir @ '': '' @ Error err))
      | Inr f \<Rightarrow>
          Inr (map (filepath_Join env basedir)
                 (filter (\<lambda>name. HasPrefix name (''validation_data-pid'' @ id')) f)))"

definition getInfoFromFilename :: "string \<Rightarrow> error + goint \<times> goint \<times> goint" where
  "getInfoFromFilename path =
     (let filename = Base path;
          filename = ReplaceAll filename ''validation_data-'' [];
          filename = ReplaceAll filename ''.txt'' [];
          tokens = Split filename ''-''
      in if length tokens \<noteq> 3 then Inl (Err ''filename has the wrong format'')
         else
           (let idStr = ReplaceAll (tokens ! 0) ''pid'' [];
                rankStr = ReplaceAll (tokens ! 1) ''rank'' [];
                callStr = ReplaceAll (tokens ! 2) ''call'' []
            in case Atoi idStr of
                 Inl err \<Rightarrow> Inl (Err (''unable to convert '' @ idStr @ '': '' @ Error err))
               | Inr id' \<Rightarrow>
                   (case Atoi rankStr of
                      Inl err \<Rightarrow> Inl (Err (''unable to convert '' @ rankStr @ '': '' @ Error err))
                    | Inr rank \<Rightarrow>
                        (case Atoi callStr of
                           Inl err \<Rightarrow>
                             Inl (Err (''unable to convert '' @ callStr @ '': '' @ Error err))
                         | Inr call \<Rightarrow> Inr (id', rank, call)))))"

definition sendMismatch :: "string \<Rightarrow> string \<Rightarrow> string \<Rightarrow> string \<Rightarrow> string \<Rightarrow> string" where
  "sendMismatch f sendCounters1 sendCounters2 recvCounters1 recvCounters2 =
     ''Send counters do not match with '' @ Base f @ '': expected '' @ [CHR 0x27] @ sendCounters1 @
     [CHR 0x27] @ '' but got '' @ [CHR 0x27] @ sendCounters2 @ [CHR 0x27] @
     ''\<newline>Receive counts are: '' @ recvCounters1 @ '' vs. '' @ recvCounters2"

definition recvMismatch :: "string \<Rightarrow> string \<Rightarrow> string \<Rightarrow> string \<Rightarrow> string \<Rightarrow> string" where
  "recvMismatch f recvCounters1 recvCounters2 sendCounters1 sendCounters2 =
     ''Receive counters do not match '' @ Base f @ '': expected '' @ [CHR 0x27] @ recvCounters1 @
     [CHR 0x27] @ '' but got '' @ [CHR 0x27] @ recvCounters2 @ [CHR 0x27] @
     ''\<newline>Send counts are: '' @ sendCounters1 @ '' vs. '' @ sendCounters2"

text \<open>The loop over the validation files; \<open>None\<close> is the \<^verbatim>\<open>nil\<close> error.\<close>

fun validateFiles :: "Env \<Rightarrow> goint \<Rightarrow> string \<Rightarrow> string list \<Rightarrow> error option" where
  "validateFiles env jobid dir [] = None"
| "validateFiles env jobid dir (f # files) =
     (case getInfoFromFilename f of
        Inl err \<Rightarrow> Some err
      | Inr (_, rank, call) \<Rightarrow>
          (case getCountersFromValidationFile (os_Open env) f of
             Inl err \<Rightarrow> Some err
           | Inr (sendCounters1, recvCounters1) \<Rightarrow>
               (case FindCallRankCounters env dir jobid rank call of
                  Inl err \<Rightarrow> Some err
                | Inr (sendCounters2, recvCounters2) \<Rightarrow>
                    if sendCounters1 \<noteq> sendCounters2
                    then Some (Err (sendMismatch f sendCounters1 sendCounters2
                                      recvCounters1 recvCounters2))
                    else if recvCounters1 \<noteq> recvCounters2
                    then Some (Err (recvMismatch f recvCounters1 recvCounters2
                                      sendCounters1 sendCounters2))
                    else validateFiles env jobid dir files)))"

definition Validate :: "Env \<Rightarrow> goint \<Rightarrow> goint \<Rightarrow> string \<Rightarrow> error option" where
  "Validate env jobid pid dir =
     (let idStr = Itoa pid
      in case getValidationFiles env dir idStr of
           Inl err \<Rightarrow> Some err
         | Inr files \<Rightarrow> validateFiles env jobid dir files)"

text \<open>
  For one validation file: the counters loaded from the file (expected) and the counters
  that the lookup returns for the rank and call of the file name (actual), when both
  can be had.
\<close>

definition bothCounters ::
  "Env \<Rightarrow> goint \<Rightarrow> string \<Rightarrow> string \<Rightarrow> ((string \<times> string) \<times> (string \<times> string)) option"
where
  "bothCounters env jobid dir f =
     (case getInfoFromFilename f of
        Inl err \<Rightarrow> None
      | Inr (_, rank, call) \<Rightarrow>
          (case getCountersFromValidationFile (os_Open env) f of
             Inl err \<Rightarrow> None
           | Inr expected \<Rightarrow>
               (case FindCallRankCounters env dir jobid rank call of
                  Inl err \<Rightarrow> None
                | Inr actual \<Rightarrow> Some (expected, actual))))"

definition validationDir :: "string \<Rightarrow> error + string list" where
  "validationDir d =
     (if d = ''/tmp/run''
      then Inr [''counts.job0.rank0.txt'', ''validation_data-pid42-rank1-call3.txt'']
      else Inl (Err ''no such file or directory''))"

definition validationEnv :: "(string \<times> string) \<Rightarrow> Env" where
  "validationEnv actual =
     \<lparr>ioutil_ReadDir = validationDir,
      filepath_Join = (\<lambda>d name. d @ ''/'' @ name),
      os_Open = (\<lambda>path. validationFile (Base path)),
      FindCallRankCounters = (\<lambda>dir jobid rank call.
        if rank = 1 \<and> call = 3 then Inr actual else Inl (Err ''not found''))\<rparr>"

definition matching :: "Env \<Rightarrow> goint \<Rightarrow> string \<Rightarrow> string \<Rightarrow> bool" where
  "matching env jobid dir f =
     (case bothCounters env jobid dir f of
        None \<Rightarrow> False
      | Some (expected, actual) \<Rightarrow> expected = actual)"

definition mismatching :: "Env \<Rightarrow> goint \<Rightarrow> string \<Rightarrow> string \<Rightarrow> bool" where
  "mismatching env jobid dir f =
     (case bothCounters env jobid dir f of
        None \<Rightarrow> False
      | Some (expected, actual) \<Rightarrow> expected \<noteq> actual)"

section \<open>Volume clusterer\<close>

record VolumeGroup =
  gmin :: int
  gmax :: int
  members :: nat
  elts :: "nat list"

definition adjacent :: "VolumeGroup \<Rightarrow> int \<Rightarrow> bool" where
  \<comment> \<open>Modelled from the spec: a point is compatible with a group when its value is
      adjacent to the value range of the group or lies within it.\<close>
  "adjacent g v = (gmin g - 1 \<le> v \<and> v \<le> gmax g + 1)"

fun place :: "(VolumeGroup \<Rightarrow> int \<Rightarrow> bool) \<Rightarrow> nat \<Rightarrow> int \<Rightarrow> VolumeGroup list \<Rightarrow> VolumeGroup list" where
  \<comment> \<open>Modelled from the spec: the grouping engine (\<^verbatim>\<open>grouping.c\<close>: \<^verbatim>\<open>add_datapoint\<close>,
      \<^verbatim>\<open>get_groups\<close>, \<^verbatim>\<open>grouping_fini\<close>) is not part of the sources at hand, only its
      test is. A point is assigned to the first existing group it is compatible with
      under the policy, whose interval then is the minimum and maximum of its members'
      values; otherwise it opens a new group. A point once assigned is never looked at
      again.\<close>
  "place policy id' v [] = [\<lparr>gmin = v, gmax = v, members = 1, elts = [id']\<rparr>]"
| "place policy id' v (g # gs) =
     (if policy g v
      then g\<lparr>gmin := min (gmin g) v, gmax := max (gmax g) v,
             members := members g + 1, elts := elts g @ [id']\<rparr> # gs
      else g # place policy id' v gs)"

definition add :: "(VolumeGroup \<Rightarrow> int \<Rightarrow> bool) \<Rightarrow> nat \<Rightarrow> int \<Rightarrow> VolumeGroup list \<Rightarrow> VolumeGroup list" where
  \<comment> \<open>Modelled from the spec: \<open>add(id, value)\<close> takes one pair into the state of the
      engine, the groups formed so far.\<close>
  "add policy id' v engine = place policy id' v engine"

definition finalize :: "VolumeGroup list \<Rightarrow> VolumeGroup list \<times> VolumeGroup list" where
  \<comment> \<open>Modelled from the spec: \<open>finalize()\<close> returns the ordered list of groups and
      resets the state; the result is the pair of the list and the new state.\<close>
  "finalize engine = (engine, [])"

section \<open>Rescaling (scale_mapfloat64s.go, MapFloat64s)\<close>

text \<open>
  The package \<^verbatim>\<open>unit\<close> is not part of the sources at hand; its three functions are
  parameters. The constants \<^verbatim>\<open>DOWN\<close> and \<^verbatim>\<open>UP\<close> are the two operations that
  \<^verbatim>\<open>mapFloat64sCompute\<close> distinguishes. A \<^verbatim>\<open>float64\<close> is modelled by the real number it
  denotes; rounding, infinities and NaN are not modelled.
\<close>

record UnitPkg =
  FromString :: "string \<Rightarrow> goint \<times> goint"
  ToString :: "goint \<Rightarrow> goint \<Rightarrow> string"
  IsValidScale :: "goint \<Rightarrow> goint \<Rightarrow> bool"

datatype scaleOp = DOWN | UP

definition mapFloat64sCompute :: "scaleOp \<Rightarrow> real gomap \<Rightarrow> real gomap" where
  "mapFloat64sCompute op values =
     (case op of
        DOWN \<Rightarrow> map (\<lambda>(key, val). (key, val * 1000)) values
      | UP \<Rightarrow> map (\<lambda>(key, val). (key, val / 1000)) values)"

definition mapFloat64sScaleDown ::
  "UnitPkg \<Rightarrow> goint \<Rightarrow> goint \<Rightarrow> real gomap \<Rightarrow> goint \<times> goint \<times> real gomap"
where
  "mapFloat64sScaleDown unit unitType unitScale values =
     (if unitScale = - 1 then (unitType, unitScale, values)
      else (let newUnitScale = unitScale - 1
            in if \<not> IsValidScale unit unitType newUnitScale then (unitType, unitScale, values)
               else (unitType, newUnitScale, mapFloat64sCompute DOWN values)))"

definition mapFloat64sScaleUp ::
  "UnitPkg \<Rightarrow> goint \<Rightarrow> goint \<Rightarrow> real gomap \<Rightarrow> goint \<times> goint \<times> real gomap"
where
  "mapFloat64sScaleUp unit unitType unitScale values =
     (if unitScale = - 1 then (unitType, unitScale, values)
      else (let newUnitScale = unitScale + 1
            in if \<not> IsValidScale unit unitType newUnitScale then (unitType, unitScale, values)
               else (unitType, newUnitScale, mapFloat64sCompute UP values)))"

text \<open>
  \<^verbatim>\<open>MapFloat64s\<close> calls itself after either rescaling; a run that never reaches the last
  \<^verbatim>\<open>return\<close> has the value \<open>None\<close>.
\<close>

partial_function (option) MapFloat64s ::
  "UnitPkg \<Rightarrow> string \<Rightarrow> real gomap \<Rightarrow> (string \<times> real gomap) option"
where
  "MapFloat64s unit unitID values =
     (let sortedValues = sort (map snd values)
      in if 2 \<le> length sortedValues \<and> 0 \<le> sortedValues ! 0 \<and>
            sortedValues ! (length values - 1) \<le> 1
         then (case FromString unit unitID of (unitType, unitScale) \<Rightarrow>
                (case mapFloat64sScaleDown unit unitType unitScale values of
                   (unitType, unitScale, newValues) \<Rightarrow>
                     MapFloat64s unit (ToString unit unitType unitScale) newValues))
         else if 0 < length sortedValues \<and> 1000 \<le> sortedValues ! 0
         then (case FromString unit unitID of (unitType, unitScale) \<Rightarrow>
                (case mapFloat64sScaleUp unit unitType unitScale values of
                   (unitType, unitScale, newValues) \<Rightarrow>
                     MapFloat64s unit (ToString unit unitType unitScale) newValues))
         else Some (unitID, values))"

definition allZero :: "real gomap \<Rightarrow> bool" where
  "allZero values = (2 \<le> length values \<and> list_all (\<lambda>(key, val). val = 0) values)"

section \<open>Results\<close>

subsection \<open>Pattern classifier\<close>








lemma findPattern_find:
  "list_all (\<lambda>a. a < length h) as \<Longrightarrow>
     findPattern h s r as = Inr (find (\<lambda>a. samePattern (h ! a) s r) as)"
  by (induction as) (auto simp: deref_def)

















lemma detectOneToN_replicate:
  "detectOneToN a s oneToN = oneToN @ replicate (length (filter isOneToN s)) a"
  by (induction s arbitrary: oneToN) (simp_all add: replicate_app_Cons_same)

lemma count_list_replicate: "count_list (replicate k a) b = (if a = b then k else 0)"
  by (induction k) auto

lemma count_list_zero: "list_all (\<lambda>a. a < n) xs \<Longrightarrow> count_list xs (n :: nat) = 0"
  by (induction xs) auto

lemma findPattern_Some_mem:
  "findPattern h s r as = Inr (Some a) \<Longrightarrow> a \<in> set as \<and> a < length h"
  by (induction as) (auto simp: deref_def split: if_splits option.splits)

lemma addPattern_invariant:
  assumes wf: "wellFormed st" and fo: "fanOutCounted st"
    and a: "addPattern c s r st = Inr st'"
  shows "wellFormed st' \<and> fanOutCounted st'"
proof -
  obtain h g where st: "st = (h, g)" by (cases st)
  from wf st have d: "distinct (AllPatterns g)" and v: "list_all (\<lambda>a. a < length h) (AllPatterns g)"
    by (simp_all add: wellFormed_def)
  from fo st have ov: "list_all (\<lambda>a. a < length h) (OneToN g)"
    and oc: "list_all (\<lambda>a. count_list (OneToN g) a = length (filter isOneToN (Send (h ! a))))
        (AllPatterns g)"
    by (simp_all add: fanOutCounted_def)
  from findPattern_find [OF v] obtain m where f: "findPattern h s r (AllPatterns g) = Inr m"
    by blast
  show ?thesis
  proof (cases m)
    case None
    with a f st have st': "st' = (h @ [newPattern c s r],
        g\<lparr>AllPatterns := AllPatterns g @ [length h],
          OneToN := OneToN g @ replicate (length (filter isOneToN s)) (length h)\<rparr>)"
      by (simp add: addPattern_def Let_def newPattern_def detectOneToN_replicate)
    have w: "wellFormed st'"
      using d v by (auto simp: st' wellFormed_def list_all_iff)
    have "fanOutCounted st'"
      using v ov oc count_list_zero [OF ov]
      by (auto simp: st' fanOutCounted_def list_all_iff nth_append count_list_replicate
          newPattern_def)
    with w show ?thesis by simp
  next
    case (Some x)
    with a f st have st': "st' = (h[x := bump c (h ! x)], g)"
      by (simp add: addPattern_def bump_def)
    have s: "Send (h[x := bump c (h ! x)] ! b) = Send (h ! b)" if "b < length h" for b
      using that by (cases "b = x") (simp_all add: bump_def)
    have w: "wellFormed st'"
      using d v by (simp add: st' wellFormed_def)
    have "fanOutCounted st'"
      using v ov oc s by (auto simp: st' fanOutCounted_def list_all_iff)
    with w show ?thesis by simp
  qed
qed

lemma addPatterns_invariant:
  "wellFormed st \<Longrightarrow> fanOutCounted st \<Longrightarrow> addPatterns calls st = Inr st' \<Longrightarrow>
     wellFormed st' \<and> fanOutCounted st'"
proof (induction calls arbitrary: st)
  case Nil
  then show ?case by simp
next
  case (Cons call calls)
  obtain c s r where call: "call = (c, s, r)" by (cases call)
  from Cons.prems(3) call obtain st1 where
    1: "addPattern c s r st = Inr st1" and 2: "addPatterns calls st1 = Inr st'"
    by (auto split: sum.splits)
  from addPattern_invariant [OF Cons.prems(1,2) 1] Cons.IH [OF _ _ 2] show ?case by blast
qed

lemma OneToN_multiplicity:
  assumes "addPatterns calls emptyPatterns = Inr st" and "a \<in> set (AllPatterns (snd st))"
  shows "count_list (OneToN (snd st)) a = length (filter isOneToN (Send (fst st ! a)))"
proof -
  have "wellFormed emptyPatterns" "fanOutCounted emptyPatterns"
    by (simp_all add: wellFormed_def fanOutCounted_def emptyPatterns_def)
  from addPatterns_invariant [OF this assms(1)] assms(2) show ?thesis
    by (simp add: fanOutCounted_def list_all_iff)
qed

text \<open>
  Claim C1. The claim expects a pattern with a qualifying pair \<open>(sendTo, n)\<close>,
  \<open>sendTo > n * 100\<close>, to appear exactly once in \<open>OneToN\<close>, however many pairs of
  its send signature qualify. The detection loop appends the new pattern once for every
  qualifying pair (in general a pattern occurs in \<open>OneToN\<close> as often as its send
  signature has qualifying pairs, lemma \<open>OneToN_multiplicity\<close>): a first call whose
  send signature says that one rank sends to 101 ranks and one rank sends to 102 ranks
  puts the same pattern into \<open>OneToN\<close> twice.
\<close>

theorem C1_fan_out_index_holds_duplicates:
  "addPattern 0 [(101, 1), (102, 1)] [] emptyPatterns =
     Inr ([\<lparr>Send = [(101, 1), (102, 1)], Recv = [], Count = 1, Calls = [0]\<rparr>],
          \<lparr>AllPatterns = [0], OneToN = [0, 0]\<rparr>) \<and>
   isOneToN (101, 1) \<and> isOneToN (102, 1) \<and>
   count_list (OneToN \<lparr>AllPatterns = [0], OneToN = [0, 0]\<rparr>) 0 = 2"
  by (simp add: addPattern_def emptyPatterns_def isOneToN_def word_sless_alt)

subsection \<open>The not-zero-min histograms\<close>

lemma accumulate_NotZeroMins:
  "accumulate i callInfo cs = Inr cs' \<Longrightarrow>
     SendNotZeroMins cs' = SendNotZeroMins cs \<and> RecvNotZeroMins cs' = RecvNotZeroMins cs"
  by (auto simp: accumulate_def countInto_def Let_def split: sum.splits)

lemma parseCalls_NotZeroMins:
  "SendNotZeroMins (fst (parseCalls L is cs)) = SendNotZeroMins cs \<and>
   RecvNotZeroMins (fst (parseCalls L is cs)) = RecvNotZeroMins cs"
proof (induction "is" arbitrary: cs)
  case Nil
  show ?case by simp
next
  case (Cons i "is")
  show ?case
  proof (cases "L i")
    case (Inl e)
    then show ?thesis by simp
  next
    case (Inr callInfo)
    show ?thesis
    proof (cases "accumulate i callInfo cs")
      case (Inl e)
      with Inr show ?thesis by simp
    next
      case cs': (Inr cs')
      from accumulate_NotZeroMins [OF cs'] Cons.IH [of cs'] Inr cs'
      show ?thesis by simp
    qed
  qed
qed

lemma ParseCountFiles_NotZeroMins_empty:
  "SendNotZeroMins (fst (ParseCountFiles L sf rf numCalls sizeThreshold)) = [] \<and>
   RecvNotZeroMins (fst (ParseCountFiles L sf rf numCalls sizeThreshold)) = []"
  unfolding ParseCountFiles_def
  using parseCalls_NotZeroMins [of _ _ newCountStats]
  by (simp add: newCountStats_def)

text \<open>
  Claim C3. For every record processed by the statistics accumulator the claim expects
  the entry of \<open>SendNotZeroMins\<close> at the record's \<open>SendNotZeroMin\<close> key, and the entry of
  \<open>RecvNotZeroMins\<close> at the record's \<open>RecvNotZeroMin\<close> key, to go up by one. The code
  tests the not-zero-min histograms but writes to \<open>SendMins\<close> and \<open>RecvMins\<close>: after one
  call with send minimum 0, receive minimum 0, send not-zero minimum 5 and receive
  not-zero minimum 7 the two not-zero-min histograms are still empty, and the keys 5
  and 7 have landed in the plain minimum histograms.
\<close>

theorem C3_not_zero_mins_never_updated:
  "\<exists>cs. accumulate 0 sampleCall newCountStats = Inr cs \<and>
     SendNotZeroMins cs = [] \<and> RecvNotZeroMins cs = [] \<and>
     map_of (SendNotZeroMins cs) (SendNotZeroMin sampleCall) = None \<and>
     map_of (RecvNotZeroMins cs) (RecvNotZeroMin sampleCall) = None \<and>
     SendMins cs = [(0, 1), (5, 1)] \<and> RecvMins cs = [(0, 1), (7, 1)]"
  by (simp add: accumulate_def sampleCall_def newCountStats_def emptyPatterns_def
      addPattern_def countInto_def countKey_def hasKey_def lookup0_def Let_def isOneToN_def)

subsection \<open>Report output\<close>


lemma writeStrings_not_writable:
  "\<not> writable fd \<Longrightarrow> ss \<noteq> [] \<Longrightarrow> writeStrings fd ss = (fd, Some (Err ''write failed''))"
  by (cases ss) (simp_all add: WriteString_def)





subsection \<open>Rank list compression\<close>

lemma scanRun_no_zero:
  "i < length array \<Longrightarrow> (\<forall>k. i < k \<and> k < length array \<longrightarrow> array ! k \<noteq> 0) \<Longrightarrow>
     scanRun array i = Inl OutOfBounds"
proof (induction array i rule: scanRun.induct)
  case (1 array i)
  show ?case
  proof (cases "i + 1 < length array")
    case True
    with "1.prems" have nz: "array ! (i + 1) \<noteq> 0" by simp
    have "scanRun (array[i := array ! (i + 1)]) (i + 1) = Inl OutOfBounds"
      using "1.IH" [OF True refl refl nz] True "1.prems" by simp
    with True nz show ?thesis
      by (subst scanRun.simps) (simp add: Let_def)
  next
    case False
    then show ?thesis by (subst scanRun.simps) simp
  qed
qed

text \<open>
  On a block that holds exactly the \<open>n\<close> ranks of an ascending sequence of distinct
  non-negative integers, the first run of the inner loop never meets a zero and reads
  past the end of the block.
\<close>

lemma compress_int_array_reads_past_end:
  assumes "array \<noteq> []" "sorted_wrt (<) array" "list_all (\<lambda>x. 0 \<le> x) array"
  shows "compress_int_array MAX_STRING_LEN compressedRep0 array (int (length array)) = Inl OutOfBounds"
proof -
  have "array ! k \<noteq> 0" if "0 < k" "k < length array" for k
  proof -
    from assms(2) that have "array ! 0 < array ! k" by (simp add: sorted_wrt_iff_nth_less)
    moreover from assms(1,3) have "0 \<le> array ! 0" by (cases array) simp_all
    ultimately show ?thesis by simp
  qed
  with assms(1) have "scanRun array 0 = Inl OutOfBounds"
    by (intro scanRun_no_zero) auto
  with assms(1) show ?thesis
    by (simp add: compress_int_array_def compressLoop.simps [of _ array _ 0])
qed

text \<open>
  Claim C5. The claim expects \<open>compress\<close> to render the ranks 1, 2, 3, 5, 7, 8, 9 as
  \<^verbatim>\<open>1-3, 5, 7-9\<close>, and the empty sequence as the empty string. The C function assigns
  instead of comparing (\<^verbatim>\<open>array[i] = array[i + 1]\<close>), so the inner loop runs until it
  meets a zero and reads past the seven ranks; and it prints the positions
  \<^verbatim>\<open>start\<close> and \<^verbatim>\<open>i\<close> instead of the ranks stored there. On a block of exactly seven
  ints the run is undefined; if a zero happens to follow, the result is \<^verbatim>\<open>0-6\<close> and
  the ranks have been overwritten. For size 0 the uninitialised pointer is returned,
  not an empty string.
\<close>

theorem C5_compress_int_array_prints_positions:
  "compress_int_array 64 None [1, 2, 3, 5, 7, 8, 9] 7 = Inl OutOfBounds \<and>
   compress_int_array 64 None [1, 2, 3, 5, 7, 8, 9, 0] 7 =
     Inr ([2, 3, 5, 7, 8, 9, 0, 0], Some ''0-6'') \<and>
   compress_int_array 64 None [] 0 = Inr ([], None)"
  by code_simp

text \<open>
  Claim C6. The round trip \<open>decompress (compress x) = x\<close> fails on the C function for the
  same reason as claim C5: for the ranks 1, 2, 3, 5, 7, 8, 9 (followed by a zero, so that
  the run is defined) the compressed string is \<^verbatim>\<open>0-6\<close>, which decodes to the seven
  positions 0, ..., 6 and not to the ranks.
\<close>

theorem C6_round_trip_lost_by_compress_int_array:
  "compress_int_array 64 None [1, 2, 3, 5, 7, 8, 9, 0] 7 =
     Inr ([2, 3, 5, 7, 8, 9, 0, 0], Some ''0-6'') \<and>
   decompress ''0-6'' = Inr [0, 1, 2, 3, 4, 5, 6] \<and>
   decompress ''0-6'' \<noteq> Inr [1, 2, 3, 5, 7, 8, 9] \<and>
   decompress ''1-3, 5, 7-9'' = Inr [1, 2, 3, 5, 7, 8, 9]"
  by code_simp

subsection \<open>The codec of the specification\<close>

text \<open>
  The encoder and the decoder as the specification describes them do satisfy the
  round-trip law, and the encoder renders the example of the specification as stated;
  the defect of claims C5 and C6 is in the C function alone.
\<close>

lemma digitValue_digit: "d < 10 \<Longrightarrow> digitValue (digit d) = Some d"
proof -
  assume "d < 10"
  then have "d \<in> {0, 1, 2, 3, 4, 5, 6, 7, 8, 9}" by auto
  then show ?thesis
    by (auto simp: digit_def digitValue_def)
qed

lemma digit_in_lt: "d < 10 \<Longrightarrow> digit d \<in> set ''0123456789''"
proof -
  assume "d < 10"
  then have "d \<in> {0, 1, 2, 3, 4, 5, 6, 7, 8, 9}" by auto
  then show ?thesis
    by (auto simp: digit_def)
qed

lemma digit_in: "digit d \<in> set ''0123456789''"
proof -
  have "digit d = digit (d mod 10)" by (simp add: digit_def)
  with digit_in_lt [of "d mod 10"] show ?thesis by simp
qed

lemma set_decimal: "set (decimal n) \<subseteq> set ''0123456789''"
proof (induction n rule: decimal.induct)
  case (1 n)
  show ?case
  proof (cases "n < 10")
    case True
    then show ?thesis using digit_in [of n] by (subst decimal.simps) simp
  next
    case False
    with "1.IH" digit_in [of "n mod 10"] show ?thesis
      by (subst decimal.simps) simp
  qed
qed

lemma decimal_not_Nil: "decimal n \<noteq> []"
  by (subst decimal.simps) simp

lemma parseDigits_snoc:
  "parseDigits acc (xs @ [c]) =
     (case parseDigits acc xs of
        None \<Rightarrow> None
      | Some v \<Rightarrow> (case digitValue c of None \<Rightarrow> None | Some d \<Rightarrow> Some (10 * v + d)))"
  by (induction xs arbitrary: acc) (auto split: option.splits)

lemma parseDigits_decimal: "parseDigits 0 (decimal n) = Some n"
proof (induction n rule: decimal.induct)
  case (1 n)
  show ?case
  proof (cases "n < 10")
    case True
    then show ?thesis by (subst decimal.simps) (simp add: digitValue_digit)
  next
    case False
    have "digitValue (digit (n mod 10)) = Some (n mod 10)" by (simp add: digitValue_digit)
    with False "1.IH" show ?thesis
      by (subst decimal.simps) (simp add: parseDigits_snoc)
  qed
qed

lemma parseNumber_decimal: "parseNumber (decimal n) = Some n"
  by (simp add: parseNumber_def decimal_not_Nil parseDigits_decimal)

lemma splitAt_free:
  "c0 \<notin> set t \<Longrightarrow> splitAt (c0 # sep) cur t = [cur @ t]"
  by (induction t arbitrary: cur) auto

lemma splitAt_token:
  "c0 \<notin> set t \<Longrightarrow>
     splitAt (c0 # sep) cur (t @ (c0 # sep) @ s) = (cur @ t) # splitAt (c0 # sep) [] s"
  by (induction t arbitrary: cur) auto

lemma Split_joinWith:
  "ts \<noteq> [] \<Longrightarrow> list_all (\<lambda>t. c0 \<notin> set t) ts \<Longrightarrow>
     Split (joinWith (c0 # sep) ts) (c0 # sep) = ts"
proof (induction "c0 # sep" ts rule: joinWith.induct)
  case 1
  then show ?case by simp
next
  case (2 t)
  then show ?case by (simp add: Split_def splitAt_free)
next
  case (3 t u us)
  from "3.prems" have "c0 \<notin> set t" by simp
  from splitAt_token [OF this, of sep "[]" "joinWith (c0 # sep) (u # us)"] "3.hyps" "3.prems"
  show ?case by (simp add: Split_def)
qed


lemma decimal_free:
  "CHR ''-'' \<notin> set (decimal n)" "CHR '','' \<notin> set (decimal n)"
  using set_decimal [of n] by auto

lemma showInt_nonneg: "0 \<le> a \<Longrightarrow> showInt a = decimal (nat a)"
  by (simp add: showInt_def)

lemma parseToken_token:
  assumes "0 \<le> a" "a \<le> b"
  shows "parseToken (token (a, b)) = Some (expand (a, b))"
proof (cases "a = b")
  case True
  have "Split (decimal (nat a)) ''-'' = [decimal (nat a)]"
    by (simp add: Split_def splitAt_free decimal_free)
  with True assms show ?thesis
    by (simp add: parseToken_def token_def showInt_nonneg parseNumber_decimal expand_def)
next
  case False
  with assms have b: "0 \<le> b" "nat a \<le> nat b" by simp_all
  have "Split (decimal (nat a) @ ''-'' @ decimal (nat b)) ''-'' = [decimal (nat a), decimal (nat b)]"
    using splitAt_token [of "CHR ''-''" "decimal (nat a)" "[]" "[]" "decimal (nat b)"]
    by (simp add: Split_def splitAt_free decimal_free)
  with False assms b show ?thesis
    by (simp add: parseToken_def token_def showInt_nonneg parseNumber_decimal expand_def)
qed

lemma token_free:
  assumes "0 \<le> a" "a \<le> b"
  shows "CHR '','' \<notin> set (token (a, b))"
  using assms decimal_free(2)
  by (auto simp: token_def showInt_nonneg)

lemma token_not_Nil: "0 \<le> a \<Longrightarrow> token (a, b) \<noteq> []"
  by (auto simp: token_def showInt_def decimal_not_Nil)

lemma parseTokens_tokens:
  "list_all validRun rs \<Longrightarrow> parseTokens (map token rs) = Some (concat (map expand rs))"
  by (induction rs) (auto simp: validRun_def parseToken_token)

lemma expand_Cons: "0 \<le> x \<Longrightarrow> x < b \<Longrightarrow> expand (x, b) = x # expand (x + 1, b)"
proof -
  assume a: "0 \<le> x" "x < b"
  then have "nat x < Suc (nat b)" by simp
  then have "[nat x ..< Suc (nat b)] = nat x # [Suc (nat x) ..< Suc (nat b)]"
    by (rule upt_conv_Cons)
  moreover from a have "nat (x + 1) = Suc (nat x)" by simp
  ultimately show ?thesis using a by (simp add: expand_def)
qed

lemma expand_single: "0 \<le> x \<Longrightarrow> expand (x, x) = [x]"
  by (simp add: expand_def)

lemma runs_expand:
  "list_all (\<lambda>x. 0 \<le> x) xs \<Longrightarrow>
     list_all validRun (runs xs) \<and> concat (map expand (runs xs)) = xs"
proof (induction xs)
  case Nil
  show ?case by simp
next
  case (Cons x xs)
  then have x: "0 \<le> x" and ih: "list_all validRun (runs xs)" "concat (map expand (runs xs)) = xs"
    by simp_all
  show ?case
  proof (cases "runs xs")
    case Nil
    with ih(2) x show ?thesis by (simp add: validRun_def expand_single)
  next
    case (Cons r rs)
    obtain a b where r: "r = (a, b)" by (cases r)
    from ih(1) Cons r have ab: "0 \<le> a" "a \<le> b" and rs: "list_all validRun rs"
      by (simp_all add: validRun_def)
    show ?thesis
    proof (cases "a = x + 1")
      case True
      with ab x have "expand (x, b) = x # expand (a, b)" by (simp add: expand_Cons)
      with True Cons r ih(2) ab x rs show ?thesis by (simp add: validRun_def)
    next
      case False
      with Cons r ih x show ?thesis by (simp add: validRun_def expand_single)
    qed
  qed
qed

lemma runs_not_Nil: "xs \<noteq> [] \<Longrightarrow> runs xs \<noteq> []"
  by (cases xs) (auto split: list.splits)

lemma joinWith_not_Nil: "ts \<noteq> [] \<Longrightarrow> hd ts \<noteq> [] \<Longrightarrow> joinWith sep ts \<noteq> []"
  by (induction sep ts rule: joinWith.induct) auto

lemma decompress_compress_spec:
  assumes "sorted_wrt (<) ids" and "list_all (\<lambda>x. 0 \<le> x) ids"
  shows "decompress (compress_spec ids) = Inr ids"
proof (cases "ids = []")
  case True
  then show ?thesis by (simp add: compress_spec_def decompress_def)
next
  case False
  let ?ts = "map token (runs ids)"
  from runs_expand [OF assms(2)] have v: "list_all validRun (runs ids)"
    and c: "concat (map expand (runs ids)) = ids" by simp_all
  from False have ne: "?ts \<noteq> []" by (simp add: runs_not_Nil)
  from v have free: "list_all (\<lambda>t. CHR '','' \<notin> set t) ?ts"
    by (auto simp: list_all_iff validRun_def token_free)
  from v ne have "hd ?ts \<noteq> []"
    by (cases "runs ids") (auto simp: validRun_def token_not_Nil)
  with ne have s: "compress_spec ids \<noteq> []"
    by (simp add: compress_spec_def joinWith_not_Nil)
  have "Split (compress_spec ids) '', '' = ?ts"
    using Split_joinWith [OF ne free, of "'' ''"] by (simp add: compress_spec_def)
  with s c assms(1) parseTokens_tokens [OF v] show ?thesis
    by (simp add: decompress_def)
qed

lemma compress_spec_decompress:
  assumes "sorted_wrt (<) ids" and "list_all (\<lambda>x. 0 \<le> x) ids"
  shows "\<exists>xs. decompress (compress_spec ids) = Inr xs \<and> compress_spec xs = compress_spec ids"
  using decompress_compress_spec [OF assms] by simp

lemma compress_spec_example: "compress_spec [1, 2, 3, 5, 7, 8, 9] = ''1-3, 5, 7-9''"
  by code_simp

subsection \<open>Validation data\<close>

lemma takeLine_linesFrom_Some:
  "takeLine s = (l, Some rest) \<Longrightarrow> linesFrom cur s = (cur @ l) # linesFrom [] rest"
  by (induction s arbitrary: cur l) (auto split: if_splits prod.splits)

lemma takeLine_linesFrom_None:
  "takeLine s = (l, None) \<Longrightarrow> linesFrom cur s = [cur @ l]"
  by (induction s arbitrary: cur l) (auto split: if_splits prod.splits)

lemma readCounters_keepLines:
  "failure reader = None \<Longrightarrow>
     readCounters path reader counters = keepLines (fileLines (remaining reader)) counters"
proof (induction "length (remaining reader)" arbitrary: reader counters rule: less_induct)
  case less
  obtain l r where t: "takeLine (remaining reader) = (l, r)" by (cases "takeLine (remaining reader)")
  show ?case
  proof (cases r)
    case None
    with t have rs: "ReadString reader = (l, Some io_EOF, reader\<lparr>remaining := []\<rparr>)"
      using less.prems by (simp add: ReadString_def)
    from t None have fl: "fileLines (remaining reader) = [l]"
      by (simp add: fileLines_def takeLine_linesFrom_None)
    show ?thesis
      by (subst readCounters.simps) (simp add: rs fl split: sum.splits)
  next
    case (Some rest)
    with t have rs: "ReadString reader = (l, None, reader\<lparr>remaining := rest\<rparr>)"
      by (simp add: ReadString_def)
    from t Some have fl: "fileLines (remaining reader) = l # fileLines rest"
      by (simp add: fileLines_def takeLine_linesFrom_Some)
    from t Some have sh: "length rest < length (remaining reader)"
      by (simp add: takeLine_shorter)
    have ih: "readCounters path (reader\<lparr>remaining := rest\<rparr>) c = keepLines (fileLines rest) c" for c
      using less.hyps [of "reader\<lparr>remaining := rest\<rparr>" c] sh less.prems by simp
    show ?thesis
      by (subst readCounters.simps) (simp add: rs fl ih io_EOF_def split: sum.splits)
  qed
qed

lemma keepLines_filter: "keepLines ls c = keepLines (filter nonEmptyLine ls) c"
  by (induction ls arbitrary: c)
    (auto simp: keepLine_def nonEmptyLine_def split: sum.splits prod.splits)

lemma keepLines_nonEmpty:
  assumes "list_all nonEmptyLine ls"
  shows "keepLines ls ([], []) =
     (if length ls = 0 then Inr ([], [])
      else if length ls = 1 then Inr (ls ! 0, [])
      else if length ls = 2 then Inr (ls ! 0, ls ! 1)
      else Inl (Err ''invalid file format''))"
proof (cases ls)
  case Nil
  then show ?thesis by simp
next
  case a: (Cons a ls1)
  with assms have na: "a \<noteq> [] \<and> a \<noteq> ''\<newline>''" by (simp add: nonEmptyLine_def)
  show ?thesis
  proof (cases ls1)
    case Nil
    with a na show ?thesis by (simp add: keepLine_def nonEmptyLine_def)
  next
    case b: (Cons b ls2)
    with a assms have nb: "b \<noteq> [] \<and> b \<noteq> ''\<newline>''" by (simp add: nonEmptyLine_def)
    show ?thesis
    proof (cases ls2)
      case Nil
      with a b na nb assms show ?thesis by (simp add: keepLine_def nonEmptyLine_def)
    next
      case c: (Cons c ls3)
      with a b assms have nc: "c \<noteq> [] \<and> c \<noteq> ''\<newline>''" by (simp add: nonEmptyLine_def)
      with a b c na nb assms show ?thesis by (simp add: keepLine_def nonEmptyLine_def)
    qed
  qed
qed

lemma getCounters_open_fails:
  "Open path = Inl err \<Longrightarrow>
     getCountersFromValidationFile Open path =
       Inl (Err (''unable to open '' @ path @ '': '' @ Error err))"
  by (simp add: getCountersFromValidationFile_def)

lemma readCounters_read_fails:
  assumes "failure reader = Some err" "err \<noteq> io_EOF" "CHR 0x0A \<notin> set (remaining reader)"
  shows "readCounters path reader counters =
           Inl (Err (''unable to read header from '' @ path @ '': '' @ Error err))"
proof -
  have "takeLine s = (s, None)" if "CHR 0x0A \<notin> set s" for s
    using that by (induction s) auto
  with assms show ?thesis
    by (subst readCounters.simps) (simp add: ReadString_def)
qed

text \<open>
  Claim C7. For a validation-data file that can be opened and read to its end,
  \<open>getCountersFromValidationFile\<close> succeeds exactly when the file holds exactly two
  non-empty lines, and then returns the two lines, send counters first, without their
  trailing newline and trailing spaces. With a third non-empty line it fails with the
  error ``invalid file format'', with fewer than two non-empty lines with the error
  ``unable to load send and receive counters''.
\<close>

theorem C7_two_non_empty_lines:
  assumes "Open path = Inr reader" and "failure reader = None"
  shows "getCountersFromValidationFile Open path =
     (let ls = filter nonEmptyLine (fileLines (remaining reader)) in
      if length ls = 2 then Inr (stripLine (ls ! 0), stripLine (ls ! 1))
      else if 2 < length ls then Inl (Err ''invalid file format'')
      else Inl (Err (''unable to load send and receive counters from '' @ path)))"
proof -
  let ?ls = "filter nonEmptyLine (fileLines (remaining reader))"
  have all: "list_all nonEmptyLine ?ls" by (simp add: list_all_iff)
  have rc: "readCounters path reader ([], []) = keepLines ?ls ([], [])"
    using readCounters_keepLines [OF assms(2)] keepLines_filter by simp
  have ne: "?ls ! 0 \<noteq> []" if "0 < length ?ls"
    using that all by (auto simp: list_all_length nonEmptyLine_def simp del: length_greater_0_conv)
  have ne1: "?ls ! 1 \<noteq> []" if "1 < length ?ls"
    using that all by (auto simp: list_all_length nonEmptyLine_def)
  consider "length ?ls = 0" | "length ?ls = 1" | "length ?ls = 2" | "2 < length ?ls"
    by linarith
  then show ?thesis
  proof cases
    case 1
    then show ?thesis
      unfolding getCountersFromValidationFile_def Let_def
      by (simp only: assms(1) sum.case rc keepLines_nonEmpty [OF all]) simp
  next
    case 2
    then show ?thesis
      unfolding getCountersFromValidationFile_def Let_def
      by (simp only: assms(1) sum.case rc keepLines_nonEmpty [OF all]) simp
  next
    case 3
    with ne ne1 have "?ls ! 0 \<noteq> []" "?ls ! 1 \<noteq> []" by simp_all
    with 3 show ?thesis
      unfolding getCountersFromValidationFile_def Let_def
      by (simp only: assms(1) sum.case rc keepLines_nonEmpty [OF all]) (simp add: stripLine_def)
  next
    case 4
    then show ?thesis
      unfolding getCountersFromValidationFile_def Let_def
      by (simp only: assms(1) sum.case rc keepLines_nonEmpty [OF all]) auto
  qed
qed

theorem C7_two_non_empty_lines_witness:
  "validationFile ''validation_data-pid42-rank1-call3.txt'' =
     Inr \<lparr>remaining = ''1 2 3 \<newline>\<newline>4 5 6\<newline>'', failure = None\<rparr> \<and>
   filter nonEmptyLine (fileLines ''1 2 3 \<newline>\<newline>4 5 6\<newline>'') =
     [''1 2 3 \<newline>'', ''4 5 6\<newline>''] \<and>
   getCountersFromValidationFile validationFile ''validation_data-pid42-rank1-call3.txt'' =
     Inr (''1 2 3'', ''4 5 6'')"
proof -
  have o: "validationFile ''validation_data-pid42-rank1-call3.txt'' =
     Inr \<lparr>remaining = ''1 2 3 \<newline>\<newline>4 5 6\<newline>'', failure = None\<rparr>"
    by (simp add: validationFile_def)
  have f: "filter nonEmptyLine (fileLines ''1 2 3 \<newline>\<newline>4 5 6\<newline>'') =
     [''1 2 3 \<newline>'', ''4 5 6\<newline>'']"
    by code_simp
  have s: "stripLine ''1 2 3 \<newline>'' = ''1 2 3''" "stripLine ''4 5 6\<newline>'' = ''4 5 6''"
    by code_simp+
  have n: "failure \<lparr>remaining = ''1 2 3 \<newline>\<newline>4 5 6\<newline>'', failure = None\<rparr> = None"
    by simp
  from C7_two_non_empty_lines [where Open = validationFile, OF o n] f s o
  show ?thesis by simp
qed

lemma sublist_skip: "sublist xs ys \<Longrightarrow> sublist xs (zs @ ys)"
  by (metis append_assoc sublist_def)

lemma sublist_sendMismatch:
  "sublist (Base f) (sendMismatch f s1 s2 r1 r2)"
  "sublist s1 (sendMismatch f s1 s2 r1 r2)"
  "sublist s2 (sendMismatch f s1 s2 r1 r2)"
  "sublist r1 (sendMismatch f s1 s2 r1 r2)"
  "sublist r2 (sendMismatch f s1 s2 r1 r2)"
  unfolding sendMismatch_def
  by (intro sublist_append_rightI sublist_order.order.refl sublist_skip)+

lemma sublist_recvMismatch:
  "sublist (Base f) (recvMismatch f r1 r2 s1 s2)"
  "sublist s1 (recvMismatch f r1 r2 s1 s2)"
  "sublist s2 (recvMismatch f r1 r2 s1 s2)"
  "sublist r1 (recvMismatch f r1 r2 s1 s2)"
  "sublist r2 (recvMismatch f r1 r2 s1 s2)"
  unfolding recvMismatch_def
  by (intro sublist_append_rightI sublist_order.order.refl sublist_skip)+

lemma validateFiles_matching:
  "list_all (matching env jobid dir) pre \<Longrightarrow>
     validateFiles env jobid dir (pre @ rest) = validateFiles env jobid dir rest"
  by (induction pre)
    (auto simp: matching_def bothCounters_def split: sum.splits option.splits prod.splits)

lemma validateFiles_mismatching:
  assumes "bothCounters env jobid dir f = Some ((s1, r1), (s2, r2))" and "s1 \<noteq> s2 \<or> r1 \<noteq> r2"
  shows "validateFiles env jobid dir (f # post) =
           Some (Err (if s1 \<noteq> s2 then sendMismatch f s1 s2 r1 r2 else recvMismatch f r1 r2 s1 s2))"
  using assms
  by (auto simp: bothCounters_def split: sum.splits option.splits prod.splits)

lemma validateFiles_some_mismatching:
  "list_ex (mismatching env jobid dir) files \<Longrightarrow> validateFiles env jobid dir files \<noteq> None"
  by (induction files)
    (auto simp: mismatching_def bothCounters_def split: sum.splits option.splits prod.splits)

text \<open>
  Claim C8. Let the validation files of the directory be listed. If every file matches
  (its counters can be loaded and looked up, and the two send strings and the two
  receive strings are equal), \<open>Validate\<close> returns no error. If some file has counters
  that differ from the lookup, \<open>Validate\<close> returns an error; and when that file is the
  first one that does not match, the message of the error contains the base name of the
  file and the expected and the actual counter strings, for send and for receive.
\<close>

theorem C8_validate_reports_mismatch:
  assumes "getValidationFiles env dir (Itoa pid) = Inr files"
  shows "(list_all (matching env jobid dir) files \<longrightarrow> Validate env jobid pid dir = None) \<and>
         (list_ex (mismatching env jobid dir) files \<longrightarrow> Validate env jobid pid dir \<noteq> None) \<and>
         (\<forall>pre f post s1 r1 s2 r2.
            files = pre @ f # post \<and> list_all (matching env jobid dir) pre \<and>
            bothCounters env jobid dir f = Some ((s1, r1), (s2, r2)) \<and> (s1 \<noteq> s2 \<or> r1 \<noteq> r2) \<longrightarrow>
            (\<exists>msg. Validate env jobid pid dir = Some (Err msg) \<and>
               sublist (Base f) msg \<and> sublist s1 msg \<and> sublist s2 msg \<and>
               sublist r1 msg \<and> sublist r2 msg))"
proof -
  have v: "Validate env jobid pid dir = validateFiles env jobid dir files"
    using assms by (simp add: Validate_def)
  have 1: "Validate env jobid pid dir = None" if "list_all (matching env jobid dir) files"
    using validateFiles_matching [OF that, of "[]"] v by simp
  have 2: "Validate env jobid pid dir \<noteq> None" if "list_ex (mismatching env jobid dir) files"
    using validateFiles_some_mismatching [OF that] v by simp
  have 3: "\<exists>msg. Validate env jobid pid dir = Some (Err msg) \<and>
               sublist (Base f) msg \<and> sublist s1 msg \<and> sublist s2 msg \<and>
               sublist r1 msg \<and> sublist r2 msg"
    if "files = pre @ f # post" "list_all (matching env jobid dir) pre"
       "bothCounters env jobid dir f = Some ((s1, r1), (s2, r2))" "s1 \<noteq> s2 \<or> r1 \<noteq> r2"
    for pre f post s1 r1 s2 r2
  proof -
    let ?msg = "if s1 \<noteq> s2 then sendMismatch f s1 s2 r1 r2 else recvMismatch f r1 r2 s1 s2"
    have "Validate env jobid pid dir = Some (Err ?msg)"
      using v that(1) validateFiles_matching [OF that(2)] validateFiles_mismatching [OF that(3,4)]
      by simp
    moreover have "sublist (Base f) ?msg \<and> sublist s1 ?msg \<and> sublist s2 ?msg \<and>
               sublist r1 ?msg \<and> sublist r2 ?msg"
      by (simp add: sublist_sendMismatch sublist_recvMismatch)
    ultimately show ?thesis by blast
  qed
  from 1 2 3 show ?thesis by blast
qed

theorem C8_validate_reports_mismatch_witness:
  "getValidationFiles (validationEnv (''1 2 3'', ''4 5 7'')) ''/tmp/run'' (Itoa 42) =
     Inr [''/tmp/run/validation_data-pid42-rank1-call3.txt''] \<and>
   bothCounters (validationEnv (''1 2 3'', ''4 5 7'')) 0 ''/tmp/run''
       ''/tmp/run/validation_data-pid42-rank1-call3.txt'' =
     Some ((''1 2 3'', ''4 5 6''), (''1 2 3'', ''4 5 7'')) \<and>
   (\<exists>msg. Validate (validationEnv (''1 2 3'', ''4 5 7'')) 0 42 ''/tmp/run'' = Some (Err msg) \<and>
      sublist ''validation_data-pid42-rank1-call3.txt'' msg \<and>
      sublist ''4 5 6'' msg \<and> sublist ''4 5 7'' msg) \<and>
   list_all (matching (validationEnv (''1 2 3'', ''4 5 6'')) 0 ''/tmp/run'')
     [''/tmp/run/validation_data-pid42-rank1-call3.txt''] \<and>
   Validate (validationEnv (''1 2 3'', ''4 5 6'')) 0 42 ''/tmp/run'' = None"
proof -
  let ?f = "''/tmp/run/validation_data-pid42-rank1-call3.txt''"
  have g: "getValidationFiles (validationEnv a) ''/tmp/run'' (Itoa 42) = Inr [?f]" for a
    by code_simp
  have b: "bothCounters (validationEnv (''1 2 3'', ''4 5 7'')) 0 ''/tmp/run'' ?f =
     Some ((''1 2 3'', ''4 5 6''), (''1 2 3'', ''4 5 7''))"
    by code_simp
  have m: "list_all (matching (validationEnv (''1 2 3'', ''4 5 6'')) 0 ''/tmp/run'') [?f]"
    by code_simp
  have base: "Base ?f = ''validation_data-pid42-rank1-call3.txt''"
    by code_simp
  have h: "[?f] = [] @ ?f # [] \<and>
      list_all (matching (validationEnv (''1 2 3'', ''4 5 7'')) 0 ''/tmp/run'') [] \<and>
      bothCounters (validationEnv (''1 2 3'', ''4 5 7'')) 0 ''/tmp/run'' ?f =
        Some ((''1 2 3'', ''4 5 6''), (''1 2 3'', ''4 5 7'')) \<and>
      (''1 2 3'' \<noteq> ''1 2 3'' \<or> ''4 5 6'' \<noteq> ''4 5 7'')"
    using b by simp
  from C8_validate_reports_mismatch [OF g, of "(''1 2 3'', ''4 5 7'')" 0,
      THEN conjunct2, THEN conjunct2, rule_format, OF h]
  have "\<exists>msg. Validate (validationEnv (''1 2 3'', ''4 5 7'')) 0 42 ''/tmp/run'' = Some (Err msg) \<and>
      sublist (Base ?f) msg \<and> sublist ''4 5 6'' msg \<and> sublist ''4 5 7'' msg"
    by blast
  moreover from C8_validate_reports_mismatch [OF g, of "(''1 2 3'', ''4 5 6'')" 0] m
  have "Validate (validationEnv (''1 2 3'', ''4 5 6'')) 0 42 ''/tmp/run'' = None"
    by blast
  ultimately show ?thesis using g b m base by simp
qed

subsection \<open>Volume clusterer\<close>

text \<open>
  Claim C9. Under every policy that accepts a point whose value is adjacent to the
  interval of a group or lies within it, the points with the values 1, 2, 3, added in
  this order under the ids 0, 1, 2, end up in exactly one group with the interval
  \<open>[1, 3]\<close> and three members; \<open>finalize\<close> returns it and resets the state, so that a
  second \<open>finalize\<close> returns the empty list.
\<close>

theorem C9_one_group_then_reset:
  assumes "\<And>g v. adjacent g v \<Longrightarrow> policy g v"
  shows "finalize (add policy 2 3 (add policy 1 2 (add policy 0 1 []))) =
           ([\<lparr>gmin = 1, gmax = 3, members = 3, elts = [0, 1, 2]\<rparr>], []) \<and>
         finalize (snd (finalize (add policy 2 3 (add policy 1 2 (add policy 0 1 []))))) =
           ([], [])"
proof -
  have p1: "policy \<lparr>gmin = 1, gmax = 1, members = 1, elts = [0]\<rparr> 2"
    by (rule assms) (simp add: adjacent_def)
  have p2: "policy \<lparr>gmin = 1, gmax = 2, members = 2, elts = [0, 1]\<rparr> 3"
    by (rule assms) (simp add: adjacent_def)
  have 1: "place policy 0 1 [] = [\<lparr>gmin = 1, gmax = 1, members = 1, elts = [0]\<rparr>]"
    by simp
  have 2: "place policy 1 2 [\<lparr>gmin = 1, gmax = 1, members = 1, elts = [0]\<rparr>] =
      [\<lparr>gmin = 1, gmax = 2, members = 2, elts = [0, 1]\<rparr>]"
    using p1 by simp
  have 3: "place policy 2 3 [\<lparr>gmin = 1, gmax = 2, members = 2, elts = [0, 1]\<rparr>] =
      [\<lparr>gmin = 1, gmax = 3, members = 3, elts = [0, 1, 2]\<rparr>]"
    using p2 by simp
  show ?thesis
    by (simp only: add_def 1 2 3 finalize_def snd_conv)
qed

theorem C9_one_group_then_reset_witness:
  "adjacent \<lparr>gmin = 1, gmax = 1, members = 1, elts = [0]\<rparr> 2 \<and>
   adjacent \<lparr>gmin = 1, gmax = 2, members = 2, elts = [0, 1]\<rparr> 3 \<and>
   finalize (add adjacent 2 3 (add adjacent 1 2 (add adjacent 0 1 []))) =
     ([\<lparr>gmin = 1, gmax = 3, members = 3, elts = [0, 1, 2]\<rparr>], []) \<and>
   finalize (snd (finalize (add adjacent 2 3 (add adjacent 1 2 (add adjacent 0 1 []))))) =
     ([], [])"
proof -
  have a: "adjacent \<lparr>gmin = 1, gmax = 1, members = 1, elts = [0]\<rparr> 2"
    "adjacent \<lparr>gmin = 1, gmax = 2, members = 2, elts = [0, 1]\<rparr> 3"
    by (simp_all add: adjacent_def)
  from C9_one_group_then_reset [of adjacent] a show ?thesis by blast
qed

subsection \<open>Rescaling\<close>

lemma sort_allZero:
  assumes "allZero values" "i < length values"
  shows "sort (map snd values) ! i = 0"
proof -
  from assms(2) have "sort (map snd values) ! i \<in> set (sort (map snd values))"
    by (intro nth_mem) simp
  then have "sort (map snd values) ! i \<in> snd ` set values" by simp
  with assms(1) show ?thesis by (auto simp: allZero_def list_all_iff)
qed

lemma allZero_Compute: "allZero values \<Longrightarrow> allZero (mapFloat64sCompute DOWN values)"
  by (auto simp: allZero_def mapFloat64sCompute_def list_all_iff)

lemma allZero_ScaleDown:
  "allZero values \<Longrightarrow> mapFloat64sScaleDown unit t s values = (t', s', newValues) \<Longrightarrow>
     allZero newValues"
  by (auto simp: mapFloat64sScaleDown_def Let_def allZero_Compute split: if_splits)

lemma MapFloat64s_allZero:
  assumes "MapFloat64s unit unitID values = Some y"
  shows "\<not> allZero values"
proof (rule MapFloat64s.raw_induct
    [where P = "\<lambda>unit unitID values y. \<not> allZero values", OF _ assms], goal_cases)
  case (1 self u uid vs res)
  show ?case
  proof
    assume z: "allZero vs"
    then have len: "2 \<le> length vs" by (simp add: allZero_def)
    from len have i0: "0 < length vs" and i1: "length vs - 1 < length vs" by arith+
    have s0: "sort (map snd vs) ! 0 = 0"
      and s1: "sort (map snd vs) ! (length vs - 1) = 0"
      by (rule sort_allZero [OF z i0], rule sort_allZero [OF z i1])
    obtain t s where fs: "FromString u uid = (t, s)" by (cases "FromString u uid")
    obtain t' s' nv where sd: "mapFloat64sScaleDown u t s vs = (t', s', nv)"
      by (cases "mapFloat64sScaleDown u t s vs")
    from 1(2) len s0 s1 fs sd have "self u (ToString u t' s') nv = Some res"
      by (simp add: Let_def)
    from 1(1) [OF this] allZero_ScaleDown [OF z sd] show False by simp
  qed
qed

text \<open>
  Claim C10. The claim expects \<open>MapFloat64s\<close> to return for every unit and every map.
  For a map with two entries of value 0 the first branch is taken: the least value is
  at least 0 and the greatest at most 1. Scaling down either leaves the values as they
  are or multiplies them by 1000; they stay 0, and the function calls itself with the
  same values again, for ever, whatever the package \<^verbatim>\<open>unit\<close> does.
\<close>

theorem C10_MapFloat64s_never_returns_on_zeros:
  "allZero [(0, 0), (1, 0)] \<and> MapFloat64s unit unitID [(0, 0), (1, 0)] = None"
proof -
  have z: "allZero [(0, 0), (1, 0)]" by (simp add: allZero_def)
  have "MapFloat64s unit unitID [(0, 0), (1, 0)] = None"
  proof (cases "MapFloat64s unit unitID [(0, 0), (1, 0)]")
    case None
    then show ?thesis .
  next
    case (Some y)
    from MapFloat64s_allZero [OF Some] z show ?thesis by simp
  qed
  with z show ?thesis by simp
qed

end
